theory Spec2Isabelle
  imports Main
begin

section \<open>The logging package: data model\<close>

text \<open>
  The package \<open>logs\<close> (file \<open>log.go\<close>) is embedded function by function; the
  functions of \<open>l.go\<close> only hand their arguments to one Logger of the package. Go's \<open>int\<close>
  is only compared and printed here, never computed with, so it is HOL's \<open>int\<close>.
  Strings are byte lists. A method with a pointer receiver \<open>bl *Logger\<close> takes the Logger
  and returns the updated one. A statement about one call is about that call running to
  its end without steps of another goroutine in between; where the dispatch goroutine
  takes part, its steps are written out in the statement.
\<close>

subsection \<open>Severity levels\<close>

definition LevelError :: int where "LevelError = 0"
definition LevelWarn :: int where "LevelWarn = 1"
definition LevelInfo :: int where "LevelInfo = 2"
definition LevelDebug :: int where "LevelDebug = 3"

subsection \<open>Dynamic values (\<open>interface{}\<close>)\<close>

text \<open>
  The values a caller can pass in a variadic \<open>...interface{}\<close> list. \<open>V_slice\<close> is a value
  of dynamic type \<open>[]interface{}\<close>, the only type \<open>rotate\<close> descends into. \<open>V_ErrCode\<close>
  is a value whose dynamic type implements \<open>errors.ErrCode\<close>; it carries its type name and
  what its methods \<open>Error()\<close> and \<open>StackTrace()\<close> return. \<open>V_other\<close> is any other
  value, given by its type name and its default (\<open>%v\<close>) rendering.
\<close>

datatype val =
    V_nil
  | V_string string
  | V_int int
  | V_bool bool
  | V_slice "val list"
  | V_ErrCode (type_name: string) (Error_text: string) (StackTrace: string)
  | V_other string string

subsection \<open>Adapters (\<open>LoggerInterface\<close>)\<close>

text \<open>
  An adapter is any implementation of the four-method interface. Its observable
  behaviour is the sequence of calls made on it and the error each call returns;
  \<open>returns\<close> gives the error (if any) of a call from the calls made before it.
\<close>

datatype call = CallInit string | CallWriteMsg string int | CallFlush | CallDestroy

text \<open>An \<open>error\<close> value: one an adapter returned, with its text, or the one that
  \<open>SetLogger\<close> and \<open>DelLogger\<close> build with \<open>fmt.Errorf\<close> for a name they do not know.\<close>

datatype error = Err string | UnknownAdaptername string

record LoggerInterface =
  calls :: "call list"
  returns :: "call list \<Rightarrow> call \<Rightarrow> error option"

definition Init :: "LoggerInterface \<Rightarrow> string \<Rightarrow> error option \<times> LoggerInterface" where
  "Init l config =
     (returns l (calls l) (CallInit config), l\<lparr>calls := calls l @ [CallInit config]\<rparr>)"

definition WriteMsg :: "LoggerInterface \<Rightarrow> string \<Rightarrow> int \<Rightarrow> error option \<times> LoggerInterface" where
  "WriteMsg l m lvl =
     (returns l (calls l) (CallWriteMsg m lvl), l\<lparr>calls := calls l @ [CallWriteMsg m lvl]\<rparr>)"

definition Destroy :: "LoggerInterface \<Rightarrow> LoggerInterface" where
  "Destroy l = l\<lparr>calls := calls l @ [CallDestroy]\<rparr>"

definition Flush_adapter :: "LoggerInterface \<Rightarrow> LoggerInterface" where
  "Flush_adapter l = l\<lparr>calls := calls l @ [CallFlush]\<rparr>"

text \<open>\<open>type loggerType func() LoggerInterface\<close>: a constructor of fresh adapters.\<close>

type_synonym loggerType = "unit \<Rightarrow> LoggerInterface"

subsection \<open>Messages, the channel, the Logger\<close>

text \<open>
  \<open>logMsg\<close> has the fields \<open>level\<close> and \<open>msg\<close>; they are named \<open>msg_level\<close> and
  \<open>msg_text\<close> here because the Logger has fields of the same names.
\<close>

record logMsg =
  msg_level :: int
  msg_text :: string

text \<open>
  A buffered channel \<open>chan *logMsg\<close>: its capacity and the messages in its buffer, oldest
  first. A send proceeds when the buffer has room and blocks otherwise; a receive proceeds
  when the buffer is not empty and blocks otherwise. \<open>None\<close> is "the operation blocks".
  What ends the wait is a step of another goroutine (a receive that makes room, or, with
  capacity zero, a receiver that takes the message from the sender's hands); the wait
  itself is all that one call can show.
\<close>

record chan =
  cap :: nat
  buf :: "logMsg list"

definition chan_send :: "chan \<Rightarrow> logMsg \<Rightarrow> chan option" where
  "chan_send c m = (if length (buf c) < cap c then Some (c\<lparr>buf := buf c @ [m]\<rparr>) else None)"

definition chan_recv :: "chan \<Rightarrow> (logMsg \<times> chan) option" where
  "chan_recv c = (case buf c of [] \<Rightarrow> None | m # ms \<Rightarrow> Some (m, c\<lparr>buf := ms\<rparr>))"

definition chan_len :: "chan \<Rightarrow> nat" where
  "chan_len c = length (buf c)"

text \<open>
  \<open>make(chan *logMsg, n)\<close> panics ("makechan: size out of range") when \<open>n\<close> is negative
  or above the limit of the platform, which is the parameter \<open>max_chan\<close>.
\<close>

definition make_chan :: "int \<Rightarrow> int \<Rightarrow> chan option" where
  "make_chan max_chan n =
     (if n < 0 \<or> max_chan < n then None else Some \<lparr>cap = nat n, buf = []\<rparr>)"

text \<open>
  The struct \<open>Logger\<close>, without its mutex, as \<open>NewLogger\<close> builds it: \<open>outputs\<close> is a
  map that \<open>make\<close> made and \<open>msg\<close> a channel that \<open>make\<close> made. A struct whose map or
  channel is nil (the zero value \<open>new(Logger)\<close>, which \<open>NewLogger\<close> fills in before it
  hands it out) is not among the values of this type; on such a struct the write
  \<open>bl.outputs[adaptername] = lg\<close> of \<open>SetLogger\<close> would panic.
\<close>

record Logger =
  level :: int
  enableFuncCallDepth :: bool
  loggerFuncCallDepth :: int
  msg :: chan
  outputs :: "string \<rightharpoonup> LoggerInterface"

text \<open>
  How a call ends: it returns, it panics, or it is suspended at the channel send with the
  message it is sending (the Logger is then as it was before the send).
\<close>

datatype 'a outcome = Returned 'a | Blocked Logger logMsg | Panic string

section \<open>Formatting\<close>

subsection \<open>The fragment of \<open>fmt.Sprintf\<close> the package uses\<close>

fun digits :: "nat \<Rightarrow> string" where
  "digits n =
     (if n < 10 then [char_of (48 + n)] else digits (n div 10) @ [char_of (48 + n mod 10)])"

declare digits.simps [simp del]

definition itoa :: "int \<Rightarrow> string" where
  "itoa i = (if i < 0 then CHR ''-'' # digits (nat (- i)) else digits (nat i))"

fun join_sp :: "string list \<Rightarrow> string" where
  "join_sp [] = []"
| "join_sp [s] = s"
| "join_sp (s # t # ss) = s @ '' '' @ join_sp (t # ss)"

text \<open>The default format \<open>%v\<close>: an error value prints what \<open>Error()\<close> returns, a slice
  prints its elements between brackets, separated by spaces.\<close>

fun fmt_v :: "val \<Rightarrow> string" where
  "fmt_v V_nil = ''<nil>''"
| "fmt_v (V_string s) = s"
| "fmt_v (V_int i) = itoa i"
| "fmt_v (V_bool b) = (if b then ''true'' else ''false'')"
| "fmt_v (V_slice xs) = ''['' @ join_sp (map fmt_v xs) @ '']''"
| "fmt_v (V_ErrCode tn e st) = e"
| "fmt_v (V_other tn s) = s"

text \<open>\<open>reflect.TypeOf(v)\<close>, as the name \<open>String()\<close> gives; \<open>None\<close> is the nil Type
  that \<open>TypeOf\<close> returns for the nil interface.\<close>

fun reflect_TypeOf :: "val \<Rightarrow> string option" where
  "reflect_TypeOf V_nil = None"
| "reflect_TypeOf (V_string s) = Some ''string''"
| "reflect_TypeOf (V_int i) = Some ''int''"
| "reflect_TypeOf (V_bool b) = Some ''bool''"
| "reflect_TypeOf (V_slice xs) = Some ''[]interface {}''"
| "reflect_TypeOf (V_ErrCode tn e st) = Some tn"
| "reflect_TypeOf (V_other tn s) = Some tn"

text \<open>
  One verb applied to one operand. The package applies \<open>%v\<close> to anything, \<open>%s\<close> to
  strings and \<open>%d\<close> to an int; any other pairing gets the marker that \<open>fmt\<close> prints
  for a verb that does not fit its operand.
\<close>

definition bad_verb :: "char \<Rightarrow> val \<Rightarrow> string" where
  "bad_verb c a =
     ''%!'' @ [c] @ ''('' @
       (case reflect_TypeOf a of None \<Rightarrow> ''<nil>'' | Some t \<Rightarrow> t @ ''='' @ fmt_v a) @ '')''"

definition fmt_verb :: "char \<Rightarrow> val \<Rightarrow> string" where
  "fmt_verb c a =
     (if c = CHR ''v'' then fmt_v a
      else if c = CHR ''s'' then (case a of V_string s \<Rightarrow> s | _ \<Rightarrow> bad_verb c a)
      else if c = CHR ''d'' then (case a of V_int i \<Rightarrow> itoa i | _ \<Rightarrow> bad_verb c a)
      else bad_verb c a)"

fun extra_args :: "val list \<Rightarrow> string" where
  "extra_args [] = []"
| "extra_args [a] =
     (case reflect_TypeOf a of None \<Rightarrow> ''<nil>'' | Some t \<Rightarrow> t @ ''='' @ fmt_v a)"
| "extra_args (a # b # bs) =
     (case reflect_TypeOf a of None \<Rightarrow> ''<nil>'' | Some t \<Rightarrow> t @ ''='' @ fmt_v a)
       @ '', '' @ extra_args (b # bs)"

fun Sprintf :: "string \<Rightarrow> val list \<Rightarrow> string" where
  "Sprintf [] [] = []"
| "Sprintf [] (a # as) = ''%!(EXTRA '' @ extra_args (a # as) @ '')''"
| "Sprintf (c # fs) args =
     (if c \<noteq> CHR ''%'' then c # Sprintf fs args
      else (case fs of
              [] \<Rightarrow> ''%!(NOVERB)'' @ Sprintf [] args
            | v # fs' \<Rightarrow>
                (if v = CHR ''%'' then CHR ''%'' # Sprintf fs' args
                 else (case args of
                         [] \<Rightarrow> ''%!'' @ [v] @ ''(MISSING)'' @ Sprintf fs' []
                       | a # as \<Rightarrow> fmt_verb v a @ Sprintf fs' as))))"

text \<open>\<open>strings.Repeat("%v ", n)\<close>; the only call passes \<open>len(v)\<close>, which is not negative.\<close>

definition generateFmtStr :: "nat \<Rightarrow> string" where
  "generateFmtStr n = concat (replicate n ''%v '')"

subsection \<open>\<open>path.Split\<close>\<close>

definition LastIndexByte :: "string \<Rightarrow> char \<Rightarrow> int" where
  "LastIndexByte s c =
     (if c \<in> set s then int (length s) - 1 - int (length (takeWhile (\<lambda>x. x \<noteq> c) (rev s)))
      else - 1)"

definition path_Split :: "string \<Rightarrow> string \<times> string" where
  "path_Split p =
     (let i = LastIndexByte p (CHR ''/'') in (take (nat (i + 1)) p, drop (nat (i + 1)) p))"

subsection \<open>Looking for a structured error\<close>

fun is_ErrCode :: "val \<Rightarrow> bool" where
  "is_ErrCode (V_ErrCode tn e st) = True"
| "is_ErrCode _ = False"

text \<open>
  \<open>rotate\<close>: the loop \<open>for _, item = range items\<close> assigns each element to the
  parameter \<open>item\<close> itself, so what is returned after a loop that found nothing is the
  last element (the slice itself when it is empty). \<open>rotate_range\<close> is that loop, with
  the current value of \<open>item\<close> as second argument.
\<close>

fun rotate :: "val \<Rightarrow> val"
  and rotate_range :: "val list \<Rightarrow> val \<Rightarrow> val" where
  "rotate (V_slice items) = rotate_range items (V_slice items)"
| "rotate V_nil = V_nil"
| "rotate (V_string s) = V_string s"
| "rotate (V_int i) = V_int i"
| "rotate (V_bool b) = V_bool b"
| "rotate (V_ErrCode tn e st) = V_ErrCode tn e st"
| "rotate (V_other tn s) = V_other tn s"
| "rotate_range [] item = item"
| "rotate_range (x # xs) item =
     (let r = rotate x in if is_ErrCode r then r else rotate_range xs x)"

fun handleError :: "val \<Rightarrow> string" where
  "handleError (V_ErrCode tn e st) = [] @ st"
| "handleError _ = []"

section \<open>The operations of \<open>log.go\<close>\<close>

subsection \<open>The registry of adapter constructors\<close>

text \<open>
  \<open>var adapters = make(map[string]loggerType)\<close> is the package's registry; the functions
  that read or write it take it as an argument. The constructor given to \<open>Register\<close> may
  be nil, which is \<open>None\<close>.
\<close>

type_synonym registry = "string \<rightharpoonup> loggerType"

definition Register :: "registry \<Rightarrow> string \<Rightarrow> loggerType option \<Rightarrow> registry outcome" where
  "Register adapters name log =
     (case log of
        None \<Rightarrow> Panic ''logs: Register provide is nil''
      | Some f \<Rightarrow>
          (case adapters name of
             Some dup \<Rightarrow> Panic (''logs: Register called twice for provider '' @ name)
           | None \<Rightarrow> Returned (adapters(name \<mapsto> f))))"

subsection \<open>Adapter management and settings\<close>

text \<open>
  The lines that \<open>fmt.Println\<close> writes to standard output are not part of any state the
  package reads back; they are left out. The mutex is free whenever a call starts, since no
  other call is running.
\<close>

definition SetLogger :: "registry \<Rightarrow> Logger \<Rightarrow> string \<Rightarrow> string \<Rightarrow> Logger \<times> error option" where
  "SetLogger adapters bl adaptername config =
     (case adapters adaptername of
        Some log \<Rightarrow>
          (let lg = log ();
               (err, lg') = Init lg config;
               bl' = bl\<lparr>outputs := (outputs bl)(adaptername \<mapsto> lg')\<rparr>
           in (case err of Some e \<Rightarrow> (bl', Some e) | None \<Rightarrow> (bl', None)))
      | None \<Rightarrow> (bl, Some (UnknownAdaptername adaptername)))"





subsection \<open>Filtering, annotating and enqueuing\<close>

text \<open>
  \<open>runtime.Caller(skip)\<close> depends on the call stack at the moment of the call; it is the
  parameter \<open>runtime_Caller\<close>, which gives the file and the line of the frame, or \<open>None\<close>
  when it cannot (\<open>ok\<close> false). \<open>writerMsg\<close> always returns a nil error, which is left
  out of the result.
\<close>

type_synonym caller = "int \<Rightarrow> (string \<times> int) option"

definition writerMsg :: "caller \<Rightarrow> Logger \<Rightarrow> int \<Rightarrow> string \<Rightarrow> Logger outcome" where
  "writerMsg runtime_Caller bl loglevel m =
     (if loglevel > level bl then Returned bl
      else
        (let text =
               (if enableFuncCallDepth bl then
                  (case runtime_Caller (loggerFuncCallDepth bl) of
                     Some (file, line) \<Rightarrow>
                       (let (dir, filename) = path_Split file
                        in Sprintf ''[%s:%d] %s'' [V_string filename, V_int line, V_string m])
                   | None \<Rightarrow> m)
                else m);
             lm = \<lparr>msg_level = loglevel, msg_text = text\<rparr>
         in (case chan_send (msg bl) lm of
               Some ch \<Rightarrow> Returned (bl\<lparr>msg := ch\<rparr>)
             | None \<Rightarrow> Blocked bl lm)))"

text \<open>The text \<open>writerMsg\<close> puts into the message it builds from \<open>m\<close>, on its own, for
  the statements below.\<close>

definition annotated :: "caller \<Rightarrow> Logger \<Rightarrow> string \<Rightarrow> string" where
  "annotated runtime_Caller bl m =
     (if enableFuncCallDepth bl then
        (case runtime_Caller (loggerFuncCallDepth bl) of
           Some (file, line) \<Rightarrow>
             Sprintf ''[%s:%d] %s'' [V_string (snd (path_Split file)), V_int line, V_string m]
         | None \<Rightarrow> m)
      else m)"

subsection \<open>The dispatch loop\<close>

text \<open>
  \<open>for _, l := range bl.outputs\<close> with a body that acts on \<open>l\<close> alone: every adapter of
  the map is replaced by what the body makes of it. Each name holds an adapter of its own
  (a constructor returns a fresh one), so the order of the iteration does not show.
\<close>

definition range_outputs ::
  "(LoggerInterface \<Rightarrow> LoggerInterface) \<Rightarrow> (string \<rightharpoonup> LoggerInterface) \<Rightarrow> (string \<rightharpoonup> LoggerInterface)" where
  "range_outputs body outs = (\<lambda>name. map_option body (outs name))"

text \<open>
  One turn of the loop \<open>for { select { case bm := <-bl.msg: ... } }\<close> of
  \<open>startLogger\<close>: \<open>None\<close> when the receive blocks. The loop has no exit.
\<close>

definition startLogger_turn :: "Logger \<Rightarrow> Logger option" where
  "startLogger_turn bl =
     (case chan_recv (msg bl) of
        None \<Rightarrow> None
      | Some (bm, ch) \<Rightarrow>
          Some (bl\<lparr>msg := ch,
                   outputs := range_outputs (\<lambda>l. snd (WriteMsg l (msg_text bm) (msg_level bm)))
                                (outputs bl)\<rparr>))"

text \<open>
  The two halves of a turn, for the schedules in which another call runs between them:
  the receive \<open>bm := <-bl.msg\<close>, after which the goroutine holds \<open>bm\<close>, and the loop
  over the adapters that writes \<open>bm\<close>.
\<close>

definition startLogger_receive :: "Logger \<Rightarrow> (logMsg \<times> Logger) option" where
  "startLogger_receive bl =
     (case chan_recv (msg bl) of
        None \<Rightarrow> None
      | Some (bm, ch) \<Rightarrow> Some (bm, bl\<lparr>msg := ch\<rparr>))"

definition startLogger_write :: "logMsg \<Rightarrow> Logger \<Rightarrow> Logger" where
  "startLogger_write bm bl =
     bl\<lparr>outputs := range_outputs (\<lambda>l. snd (WriteMsg l (msg_text bm) (msg_level bm)))
                      (outputs bl)\<rparr>"

subsection \<open>The emit operations\<close>

text \<open>\<open>log(tp, level, v...)\<close>: \<open>v\<close> is the variadic parameter as a list. The slice
  \<open>v\<close> itself, as an \<open>interface{}\<close>, is what \<open>rotate\<close> gets.\<close>

definition log :: "caller \<Rightarrow> Logger \<Rightarrow> string \<Rightarrow> int \<Rightarrow> val list \<Rightarrow> Logger outcome" where
  "log runtime_Caller bl tp lvl v =
     (let m = Sprintf (''['' @ tp @ ''] '' @ generateFmtStr (length v)) v;
          stack = handleError (rotate (V_slice v));
          m' = (if stack \<noteq> [] then m @ ''\<newline>'' @ stack else m)
      in writerMsg runtime_Caller bl lvl m')"

text \<open>The four methods pass their own variadic parameter \<open>v\<close> as one argument
  (\<open>bl.log("Error", LevelError, v)\<close>, without \<open>...\<close>): \<open>log\<close> gets a list of one
  element, the slice of the caller's arguments.\<close>

definition Error :: "caller \<Rightarrow> Logger \<Rightarrow> val list \<Rightarrow> Logger outcome" where
  "Error runtime_Caller bl v = log runtime_Caller bl ''Error'' LevelError [V_slice v]"

definition Warn :: "caller \<Rightarrow> Logger \<Rightarrow> val list \<Rightarrow> Logger outcome" where
  "Warn runtime_Caller bl v = log runtime_Caller bl ''Warn'' LevelWarn [V_slice v]"

definition Info :: "caller \<Rightarrow> Logger \<Rightarrow> val list \<Rightarrow> Logger outcome" where
  "Info runtime_Caller bl v = log runtime_Caller bl ''Info'' LevelInfo [V_slice v]"

definition Debug :: "caller \<Rightarrow> Logger \<Rightarrow> val list \<Rightarrow> Logger outcome" where
  "Debug runtime_Caller bl v = log runtime_Caller bl ''Debug'' LevelDebug [V_slice v]"

text \<open>
  \<open>pretty\<close>: \<open>json.MarshalIndent(v, " ", "  ")\<close> is the parameter \<open>json_MarshalIndent\<close>,
  which gives \<open>string(b)\<close> (empty when marshalling fails; the error is dropped).
  \<open>reflect.TypeOf(v).String()\<close> on the nil Type is a nil dereference.
\<close>

definition pretty :: "(val \<Rightarrow> string) \<Rightarrow> caller \<Rightarrow> Logger \<Rightarrow> string \<Rightarrow> val \<Rightarrow> Logger outcome" where
  "pretty json_MarshalIndent runtime_Caller bl message v =
     (let b = json_MarshalIndent v in
      if message = [] then
        (case reflect_TypeOf v of
           None \<Rightarrow> Panic ''runtime error: invalid memory address or nil pointer dereference''
         | Some t \<Rightarrow>
             writerMsg runtime_Caller bl LevelDebug
               (Sprintf ''[Pretty]\<newline>%s\<newline>%s'' [V_string t, V_string b]))
      else
        writerMsg runtime_Caller bl LevelDebug
          (Sprintf ''[Pretty]\<newline>%s\<newline>%s'' [V_string message, V_string b]))"

definition Pretty :: "(val \<Rightarrow> string) \<Rightarrow> caller \<Rightarrow> Logger \<Rightarrow> string \<Rightarrow> val \<Rightarrow> Logger outcome" where
  "Pretty json_MarshalIndent runtime_Caller bl message v =
     pretty json_MarshalIndent runtime_Caller bl message v"

subsection \<open>Flushing and closing\<close>


text \<open>
  The first loop of \<open>Close\<close>. With \<open>len(bl.msg) > 0\<close> and no other receiver the
  receive does not block; the branch for a blocked receive is there for completeness.
\<close>

function Close_drain :: "Logger \<Rightarrow> Logger" where
  "Close_drain bl =
     (if chan_len (msg bl) > 0 then
        (case chan_recv (msg bl) of
           Some (bm, ch) \<Rightarrow>
             Close_drain
               (bl\<lparr>msg := ch,
                   outputs := range_outputs (\<lambda>l. snd (WriteMsg l (msg_text bm) (msg_level bm)))
                                (outputs bl)\<rparr>)
         | None \<Rightarrow> bl)
      else bl)"
  by pat_completeness auto
termination
  by (relation "measure (\<lambda>bl. length (buf (msg bl)))")
     (auto simp: chan_recv_def split: list.splits)

declare Close_drain.simps [simp del]

definition Close :: "Logger \<Rightarrow> Logger" where
  "Close bl =
     (let bl' = Close_drain bl
      in bl'\<lparr>outputs := range_outputs (\<lambda>l. Destroy (Flush_adapter l)) (outputs bl')\<rparr>)"

subsection \<open>Construction\<close>

text \<open>\<open>go bl.startLogger()\<close> starts a goroutine; the call returns the goroutines it
  started beside the Logger.\<close>

datatype goroutine = Go_startLogger

text \<open>
  \<open>NewLogger\<close> takes a fresh struct and assigns \<open>level\<close>, \<open>loggerFuncCallDepth\<close>, the
  flag (through \<open>EnableFuncCallDepth(true)\<close>), \<open>msg\<close> and \<open>outputs\<close> before it uses the
  Logger; the five assignments are the one record here, so that no Logger without a map
  appears. \<open>make(chan ...)\<close> is the only step that can fail, and the struct is not yet
  visible to anyone when it does.
\<close>

definition NewLogger :: "int \<Rightarrow> registry \<Rightarrow> int \<Rightarrow> (Logger \<times> goroutine list) outcome" where
  "NewLogger max_chan adapters channellen =
     (case make_chan max_chan channellen of
        None \<Rightarrow> Panic ''makechan: size out of range''
      | Some ch \<Rightarrow>
          (let bl = \<lparr>level = LevelDebug, enableFuncCallDepth = True, loggerFuncCallDepth = 2,
                     msg = ch, outputs = Map.empty\<rparr>;
               (bl, err) = SetLogger adapters bl ''console'' []
           in Returned (bl, [Go_startLogger])))"

subsection \<open>Notions used in the statements\<close>

text \<open>The calls that delivering the messages \<open>ms\<close>, oldest first, makes on one adapter.\<close>

definition deliveries :: "logMsg list \<Rightarrow> call list" where
  "deliveries ms = map (\<lambda>bm. CallWriteMsg (msg_text bm) (msg_level bm)) ms"

text \<open>Whether a call ended in a panic.\<close>

fun is_Panic :: "'a outcome \<Rightarrow> bool" where
  "is_Panic (Panic s) = True"
| "is_Panic _ = False"

text \<open>For the examples: an adapter on which no call fails, and its constructor.\<close>

definition quiet :: LoggerInterface where
  "quiet = \<lparr>calls = [], returns = (\<lambda>h c. None)\<rparr>"

definition new_quiet :: loggerType where
  "new_quiet = (\<lambda>u. quiet)"

text \<open>
  Follows the spec's words (section 4.3, "rotate"): search the argument list in order; if
  an argument is itself a sequence, search its elements in order; the first element found
  that has the code and stack-trace capability is the structured error.
\<close>

fun spec_first_ErrCode :: "val list \<Rightarrow> val option" where
  "spec_first_ErrCode [] = None"
| "spec_first_ErrCode (V_ErrCode tn e st # xs) = Some (V_ErrCode tn e st)"
| "spec_first_ErrCode (V_slice ys # xs) =
     (case spec_first_ErrCode ys of Some found \<Rightarrow> Some found | None \<Rightarrow> spec_first_ErrCode xs)"
| "spec_first_ErrCode (x # xs) = spec_first_ErrCode xs"

text \<open>
  Follows the spec's words (section 4.3, step 2): the bracketed tag naming the level, then
  the arguments, each in its default representation, joined with single spaces.
\<close>

definition spec_tag_and_joined :: "string \<Rightarrow> val list \<Rightarrow> string" where
  "spec_tag_and_joined tp args = ''['' @ tp @ '']'' @ '' '' @ join_sp (map fmt_v args)"

section \<open>Properties\<close>

subsection \<open>The level filter\<close>

lemma writerMsg_filtered:
  "level bl < S \<Longrightarrow> writerMsg clr bl S m = Returned bl"
  by (simp add: writerMsg_def)

lemma writerMsg_sends:
  "S \<le> level bl \<Longrightarrow>
   writerMsg clr bl S m =
     (if length (buf (msg bl)) < cap (msg bl)
      then Returned (bl\<lparr>msg := (msg bl)\<lparr>buf := buf (msg bl) @ [\<lparr>msg_level = S, msg_text = annotated clr bl m\<rparr>]\<rparr>\<rparr>)
      else Blocked bl \<lparr>msg_level = S, msg_text = annotated clr bl m\<rparr>)"
  by (simp add: writerMsg_def chan_send_def annotated_def Let_def split: option.split prod.split)

lemma writerMsg_passed:
  assumes "S \<le> level bl"
  shows "\<exists>lm. msg_level lm = S \<and>
        writerMsg clr bl S m =
          (if length (buf (msg bl)) < cap (msg bl)
           then Returned (bl\<lparr>msg := (msg bl)\<lparr>buf := buf (msg bl) @ [lm]\<rparr>\<rparr>)
           else Blocked bl lm)"
  by (rule exI [of _ "\<lparr>msg_level = S, msg_text = annotated clr bl m\<rparr>"])
     (simp add: writerMsg_sends [OF assms])

lemma log_is_writerMsg: "\<exists>m. log clr bl tp S v = writerMsg clr bl S m"
  unfolding log_def Let_def by (rule exI) (rule refl)

lemma enqueue_changes_Logger:
  "bl\<lparr>msg := (msg bl)\<lparr>buf := buf (msg bl) @ [lm]\<rparr>\<rparr> \<noteq> bl"
proof
  assume "bl\<lparr>msg := (msg bl)\<lparr>buf := buf (msg bl) @ [lm]\<rparr>\<rparr> = bl"
  then have "buf (msg (bl\<lparr>msg := (msg bl)\<lparr>buf := buf (msg bl) @ [lm]\<rparr>\<rparr>)) = buf (msg bl)"
    by simp
  then show False by simp
qed

text \<open>
  Claim C1. For each of the four emit methods, with its severity \<open>S\<close>, and any threshold
  \<open>level bl\<close>: the call sends a message of level \<open>S\<close> to the queue exactly when
  \<open>S \<le> level bl\<close> (the message is appended to the queue when the queue has room, and
  the caller is held at the send with that message when it is full); when \<open>S\<close> is
  above the threshold the call returns with the Logger as it was.
\<close>

theorem emit_enqueues_iff_severe_enough:
  assumes "(emit, S) \<in> {(Error, LevelError), (Warn, LevelWarn), (Info, LevelInfo), (Debug, LevelDebug)}"
  shows "((\<exists>lm. msg_level lm = S \<and>
             emit clr bl v =
               (if length (buf (msg bl)) < cap (msg bl)
                then Returned (bl\<lparr>msg := (msg bl)\<lparr>buf := buf (msg bl) @ [lm]\<rparr>\<rparr>)
                else Blocked bl lm))
           \<longleftrightarrow> S \<le> level bl) \<and>
         (level bl < S \<longrightarrow> emit clr bl v = Returned bl)"
proof -
  obtain tp where e: "emit clr bl v = log clr bl tp S [V_slice v]"
    using assms by (auto simp: Error_def Warn_def Info_def Debug_def)
  obtain m where m: "log clr bl tp S [V_slice v] = writerMsg clr bl S m"
    using log_is_writerMsg by blast
  have skip: "level bl < S \<Longrightarrow> emit clr bl v = Returned bl"
    unfolding e m by (rule writerMsg_filtered)
  have send: "S \<le> level bl \<Longrightarrow>
      \<exists>lm. msg_level lm = S \<and>
        emit clr bl v =
          (if length (buf (msg bl)) < cap (msg bl)
           then Returned (bl\<lparr>msg := (msg bl)\<lparr>buf := buf (msg bl) @ [lm]\<rparr>\<rparr>)
           else Blocked bl lm)"
    unfolding e m by (rule writerMsg_passed)
  have none: "level bl < S \<Longrightarrow>
      \<not> (\<exists>lm. msg_level lm = S \<and>
        emit clr bl v =
          (if length (buf (msg bl)) < cap (msg bl)
           then Returned (bl\<lparr>msg := (msg bl)\<lparr>buf := buf (msg bl) @ [lm]\<rparr>\<rparr>)
           else Blocked bl lm))"
    using enqueue_changes_Logger [of bl] enqueue_changes_Logger [of bl, symmetric]
    by (auto simp: skip simp del: not_ex)
  show ?thesis
    using skip send none by (cases "S \<le> level bl") auto
qed

theorem emit_enqueues_iff_severe_enough_witness:
  "(\<exists>lm. msg_level lm = LevelWarn \<and>
      Warn (\<lambda>d. None) \<lparr>level = 2, enableFuncCallDepth = False, loggerFuncCallDepth = 2,
        msg = \<lparr>cap = 1, buf = []\<rparr>, outputs = Map.empty\<rparr> [V_string ''disk'', V_int 9] =
      Returned \<lparr>level = 2, enableFuncCallDepth = False, loggerFuncCallDepth = 2,
        msg = \<lparr>cap = 1, buf = [lm]\<rparr>, outputs = Map.empty\<rparr>) \<and>
   Debug (\<lambda>d. None) \<lparr>level = 2, enableFuncCallDepth = False, loggerFuncCallDepth = 2,
        msg = \<lparr>cap = 1, buf = []\<rparr>, outputs = Map.empty\<rparr> [V_string ''disk'', V_int 9] =
      Returned \<lparr>level = 2, enableFuncCallDepth = False, loggerFuncCallDepth = 2,
        msg = \<lparr>cap = 1, buf = []\<rparr>, outputs = Map.empty\<rparr>"
proof -
  have w: "(Warn, LevelWarn) \<in> {(Error, LevelError), (Warn, LevelWarn), (Info, LevelInfo), (Debug, LevelDebug)}"
    by simp
  have d: "(Debug, LevelDebug) \<in> {(Error, LevelError), (Warn, LevelWarn), (Info, LevelInfo), (Debug, LevelDebug)}"
    by simp
  show ?thesis
    using emit_enqueues_iff_severe_enough [OF w, where clr = "\<lambda>d. None" and v = "[V_string ''disk'', V_int 9]" and bl = "\<lparr>level = 2, enableFuncCallDepth = False, loggerFuncCallDepth = 2,
        msg = \<lparr>cap = 1, buf = []\<rparr>, outputs = Map.empty\<rparr>"]
      emit_enqueues_iff_severe_enough [OF d, where clr = "\<lambda>d. None" and v = "[V_string ''disk'', V_int 9]" and bl = "\<lparr>level = 2, enableFuncCallDepth = False, loggerFuncCallDepth = 2,
        msg = \<lparr>cap = 1, buf = []\<rparr>, outputs = Map.empty\<rparr>"]
    by (simp add: LevelWarn_def LevelDebug_def)
qed

subsection \<open>Closing\<close>

lemma WriteMsg_calls: "snd (WriteMsg l m lvl) = l\<lparr>calls := calls l @ [CallWriteMsg m lvl]\<rparr>"
  by (simp add: WriteMsg_def)

lemma Close_drain_empty: "buf (msg bl) = [] \<Longrightarrow> Close_drain bl = bl"
  by (simp add: Close_drain.simps chan_len_def)

lemma Close_drain_step:
  "buf (msg bl) = bm # ms \<Longrightarrow>
   Close_drain bl =
     Close_drain (bl\<lparr>msg := (msg bl)\<lparr>buf := ms\<rparr>,
       outputs := range_outputs (\<lambda>l. snd (WriteMsg l (msg_text bm) (msg_level bm))) (outputs bl)\<rparr>)"
  by (subst Close_drain.simps) (simp add: chan_len_def chan_recv_def)

lemma Close_drain_fields:
  "buf (msg bl) = ms \<Longrightarrow>
   level (Close_drain bl) = level bl \<and>
   enableFuncCallDepth (Close_drain bl) = enableFuncCallDepth bl \<and>
   loggerFuncCallDepth (Close_drain bl) = loggerFuncCallDepth bl \<and>
   cap (msg (Close_drain bl)) = cap (msg bl) \<and>
   buf (msg (Close_drain bl)) = []"
proof (induction ms arbitrary: bl)
  case Nil
  then show ?case by (simp add: Close_drain_empty)
next
  case (Cons bm ms)
  show ?case
    using Cons.IH [of "bl\<lparr>msg := (msg bl)\<lparr>buf := ms\<rparr>,
       outputs := range_outputs (\<lambda>l. snd (WriteMsg l (msg_text bm) (msg_level bm))) (outputs bl)\<rparr>"]
    by (simp add: Close_drain_step [OF Cons.prems])
qed

lemma Close_drain_outputs:
  "buf (msg bl) = ms \<Longrightarrow>
   outputs (Close_drain bl) name =
     map_option (\<lambda>l. l\<lparr>calls := calls l @ deliveries ms\<rparr>) (outputs bl name)"
proof (induction ms arbitrary: bl)
  case Nil
  then show ?case by (cases "outputs bl name") (simp_all add: Close_drain_empty deliveries_def)
next
  case (Cons bm ms)
  show ?case
    using Cons.IH [of "bl\<lparr>msg := (msg bl)\<lparr>buf := ms\<rparr>,
       outputs := range_outputs (\<lambda>l. snd (WriteMsg l (msg_text bm) (msg_level bm))) (outputs bl)\<rparr>"]
    by (cases "outputs bl name")
       (simp_all add: Close_drain_step [OF Cons.prems] range_outputs_def WriteMsg_calls deliveries_def)
qed

lemma Close_outputs:
  "outputs (Close bl) name =
     map_option (\<lambda>l. l\<lparr>calls := calls l @ deliveries (buf (msg bl)) @ [CallFlush, CallDestroy]\<rparr>)
       (outputs bl name)"
  by (cases "outputs bl name")
     (simp_all add: Close_def Let_def range_outputs_def Close_drain_outputs [OF refl]
        Destroy_def Flush_adapter_def)

lemma Close_fields:
  "level (Close bl) = level bl \<and>
   enableFuncCallDepth (Close bl) = enableFuncCallDepth bl \<and>
   loggerFuncCallDepth (Close bl) = loggerFuncCallDepth bl \<and>
   cap (msg (Close bl)) = cap (msg bl) \<and>
   buf (msg (Close bl)) = []"
  using Close_drain_fields [OF refl, of bl] by (simp add: Close_def Let_def)

text \<open>
  \<open>Close\<close> with no step of another goroutine in between: it empties the queue, and on
  every adapter it makes one \<open>WriteMsg\<close> for each message that was in the queue, oldest
  first, then one \<open>Flush\<close>, then one \<open>Destroy\<close>.
\<close>

lemma Close_run_alone:
  "buf (msg (Close bl)) = [] \<and>
   (\<forall>name l. outputs bl name = Some l \<longrightarrow>
      outputs (Close bl) name =
        Some (l\<lparr>calls := calls l @ deliveries (buf (msg bl)) @ [CallFlush, CallDestroy]\<rparr>)) \<and>
   (\<forall>name. outputs bl name = None \<longrightarrow> outputs (Close bl) name = None)"
  by (simp add: Close_outputs Close_fields)

lemma startLogger_turn_halves:
  "startLogger_turn bl =
     (case startLogger_receive bl of None \<Rightarrow> None
      | Some (bm, bl') \<Rightarrow> Some (startLogger_write bm bl'))"
  by (simp add: startLogger_turn_def startLogger_receive_def startLogger_write_def
        split: option.split)

text \<open>
  Claim C2 says that \<open>Close\<close> delivers every message enqueued before the call to every
  adapter, oldest first, and only then flushes and destroys each adapter once. The code
  does not keep that: \<open>NewLogger\<close> always starts \<open>startLogger\<close>, which receives from the
  same channel, and \<open>Close\<close> neither stops it nor waits for it. Here a Logger of
  \<open>NewLogger\<close> gets two messages; the worker receives the first; \<open>Close\<close> runs to its
  end; the worker goes on with the message it holds. The console adapter sees the second
  message, the flush and the destroy, and after them the first message.
\<close>

theorem Close_overtaken_by_startLogger:
  "NewLogger 1024 [''console'' \<mapsto> new_quiet] 2 =
     Returned
       (\<lparr>level = 3, enableFuncCallDepth = True, loggerFuncCallDepth = 2,
         msg = \<lparr>cap = 2, buf = []\<rparr>,
         outputs = [''console'' \<mapsto> \<lparr>calls = [CallInit []], returns = (\<lambda>h c. None)\<rparr>]\<rparr>,
        [Go_startLogger]) \<and>
   Warn (\<lambda>d. None)
       \<lparr>level = 3, enableFuncCallDepth = True, loggerFuncCallDepth = 2,
        msg = \<lparr>cap = 2, buf = []\<rparr>,
        outputs = [''console'' \<mapsto> \<lparr>calls = [CallInit []], returns = (\<lambda>h c. None)\<rparr>]\<rparr>
       [V_string ''low disk''] =
     Returned
       \<lparr>level = 3, enableFuncCallDepth = True, loggerFuncCallDepth = 2,
        msg = \<lparr>cap = 2, buf = [\<lparr>msg_level = 1, msg_text = ''[Warn] [low disk] ''\<rparr>]\<rparr>,
        outputs = [''console'' \<mapsto> \<lparr>calls = [CallInit []], returns = (\<lambda>h c. None)\<rparr>]\<rparr> \<and>
   Error (\<lambda>d. None)
       \<lparr>level = 3, enableFuncCallDepth = True, loggerFuncCallDepth = 2,
        msg = \<lparr>cap = 2, buf = [\<lparr>msg_level = 1, msg_text = ''[Warn] [low disk] ''\<rparr>]\<rparr>,
        outputs = [''console'' \<mapsto> \<lparr>calls = [CallInit []], returns = (\<lambda>h c. None)\<rparr>]\<rparr>
       [V_string ''disk gone''] =
     Returned
       \<lparr>level = 3, enableFuncCallDepth = True, loggerFuncCallDepth = 2,
        msg = \<lparr>cap = 2, buf = [\<lparr>msg_level = 1, msg_text = ''[Warn] [low disk] ''\<rparr>,
                                \<lparr>msg_level = 0, msg_text = ''[Error] [disk gone] ''\<rparr>]\<rparr>,
        outputs = [''console'' \<mapsto> \<lparr>calls = [CallInit []], returns = (\<lambda>h c. None)\<rparr>]\<rparr> \<and>
   startLogger_receive
       \<lparr>level = 3, enableFuncCallDepth = True, loggerFuncCallDepth = 2,
        msg = \<lparr>cap = 2, buf = [\<lparr>msg_level = 1, msg_text = ''[Warn] [low disk] ''\<rparr>,
                                \<lparr>msg_level = 0, msg_text = ''[Error] [disk gone] ''\<rparr>]\<rparr>,
        outputs = [''console'' \<mapsto> \<lparr>calls = [CallInit []], returns = (\<lambda>h c. None)\<rparr>]\<rparr> =
     Some
       (\<lparr>msg_level = 1, msg_text = ''[Warn] [low disk] ''\<rparr>,
        \<lparr>level = 3, enableFuncCallDepth = True, loggerFuncCallDepth = 2,
         msg = \<lparr>cap = 2, buf = [\<lparr>msg_level = 0, msg_text = ''[Error] [disk gone] ''\<rparr>]\<rparr>,
         outputs = [''console'' \<mapsto> \<lparr>calls = [CallInit []], returns = (\<lambda>h c. None)\<rparr>]\<rparr>) \<and>
   outputs
     (startLogger_write \<lparr>msg_level = 1, msg_text = ''[Warn] [low disk] ''\<rparr>
        (Close
           \<lparr>level = 3, enableFuncCallDepth = True, loggerFuncCallDepth = 2,
            msg = \<lparr>cap = 2, buf = [\<lparr>msg_level = 0, msg_text = ''[Error] [disk gone] ''\<rparr>]\<rparr>,
            outputs = [''console'' \<mapsto> \<lparr>calls = [CallInit []], returns = (\<lambda>h c. None)\<rparr>]\<rparr>))
     ''console'' =
     Some \<lparr>calls = [CallInit [], CallWriteMsg ''[Error] [disk gone] '' 0, CallFlush, CallDestroy,
                    CallWriteMsg ''[Warn] [low disk] '' 1],
           returns = (\<lambda>h c. None)\<rparr>"
proof (intro conjI)
  show "NewLogger 1024 [''console'' \<mapsto> new_quiet] 2 =
     Returned
       (\<lparr>level = 3, enableFuncCallDepth = True, loggerFuncCallDepth = 2,
         msg = \<lparr>cap = 2, buf = []\<rparr>,
         outputs = [''console'' \<mapsto> \<lparr>calls = [CallInit []], returns = (\<lambda>h c. None)\<rparr>]\<rparr>,
        [Go_startLogger])"
    by (simp add: NewLogger_def make_chan_def SetLogger_def Init_def new_quiet_def quiet_def
          LevelDebug_def)
next
  show "Warn (\<lambda>d. None)
       \<lparr>level = 3, enableFuncCallDepth = True, loggerFuncCallDepth = 2,
        msg = \<lparr>cap = 2, buf = []\<rparr>,
        outputs = [''console'' \<mapsto> \<lparr>calls = [CallInit []], returns = (\<lambda>h c. None)\<rparr>]\<rparr>
       [V_string ''low disk''] =
     Returned
       \<lparr>level = 3, enableFuncCallDepth = True, loggerFuncCallDepth = 2,
        msg = \<lparr>cap = 2, buf = [\<lparr>msg_level = 1, msg_text = ''[Warn] [low disk] ''\<rparr>]\<rparr>,
        outputs = [''console'' \<mapsto> \<lparr>calls = [CallInit []], returns = (\<lambda>h c. None)\<rparr>]\<rparr>"
    by (simp add: Warn_def log_def generateFmtStr_def fmt_verb_def writerMsg_def chan_send_def
          LevelWarn_def)
next
  show "Error (\<lambda>d. None)
       \<lparr>level = 3, enableFuncCallDepth = True, loggerFuncCallDepth = 2,
        msg = \<lparr>cap = 2, buf = [\<lparr>msg_level = 1, msg_text = ''[Warn] [low disk] ''\<rparr>]\<rparr>,
        outputs = [''console'' \<mapsto> \<lparr>calls = [CallInit []], returns = (\<lambda>h c. None)\<rparr>]\<rparr>
       [V_string ''disk gone''] =
     Returned
       \<lparr>level = 3, enableFuncCallDepth = True, loggerFuncCallDepth = 2,
        msg = \<lparr>cap = 2, buf = [\<lparr>msg_level = 1, msg_text = ''[Warn] [low disk] ''\<rparr>,
                                \<lparr>msg_level = 0, msg_text = ''[Error] [disk gone] ''\<rparr>]\<rparr>,
        outputs = [''console'' \<mapsto> \<lparr>calls = [CallInit []], returns = (\<lambda>h c. None)\<rparr>]\<rparr>"
    by (simp add: Error_def log_def generateFmtStr_def fmt_verb_def writerMsg_def chan_send_def
          LevelError_def)
next
  show "startLogger_receive
       \<lparr>level = 3, enableFuncCallDepth = True, loggerFuncCallDepth = 2,
        msg = \<lparr>cap = 2, buf = [\<lparr>msg_level = 1, msg_text = ''[Warn] [low disk] ''\<rparr>,
                                \<lparr>msg_level = 0, msg_text = ''[Error] [disk gone] ''\<rparr>]\<rparr>,
        outputs = [''console'' \<mapsto> \<lparr>calls = [CallInit []], returns = (\<lambda>h c. None)\<rparr>]\<rparr> =
     Some
       (\<lparr>msg_level = 1, msg_text = ''[Warn] [low disk] ''\<rparr>,
        \<lparr>level = 3, enableFuncCallDepth = True, loggerFuncCallDepth = 2,
         msg = \<lparr>cap = 2, buf = [\<lparr>msg_level = 0, msg_text = ''[Error] [disk gone] ''\<rparr>]\<rparr>,
         outputs = [''console'' \<mapsto> \<lparr>calls = [CallInit []], returns = (\<lambda>h c. None)\<rparr>]\<rparr>)"
    by (simp add: startLogger_receive_def chan_recv_def)
next
  show "outputs
     (startLogger_write \<lparr>msg_level = 1, msg_text = ''[Warn] [low disk] ''\<rparr>
        (Close
           \<lparr>level = 3, enableFuncCallDepth = True, loggerFuncCallDepth = 2,
            msg = \<lparr>cap = 2, buf = [\<lparr>msg_level = 0, msg_text = ''[Error] [disk gone] ''\<rparr>]\<rparr>,
            outputs = [''console'' \<mapsto> \<lparr>calls = [CallInit []], returns = (\<lambda>h c. None)\<rparr>]\<rparr>))
     ''console'' =
     Some \<lparr>calls = [CallInit [], CallWriteMsg ''[Error] [disk gone] '' 0, CallFlush, CallDestroy,
                    CallWriteMsg ''[Warn] [low disk] '' 1],
           returns = (\<lambda>h c. None)\<rparr>"
    by (simp add: startLogger_write_def range_outputs_def Close_outputs deliveries_def
          WriteMsg_calls)
qed


lemma log_body_independent:
  "\<exists>m. \<forall>clr bl. log clr bl tp S v = writerMsg clr bl S m"
  unfolding log_def Let_def by (rule exI) (intro allI, rule refl)

lemma annotated_Close: "annotated clr (Close bl) m = annotated clr bl m"
  by (simp add: annotated_def Close_fields)

lemma Close_msg: "msg (Close bl) = \<lparr>cap = cap (msg bl), buf = []\<rparr>"
  using Close_fields [of bl] by (cases "msg (Close bl)") simp

lemma dom_Close: "dom (outputs (Close bl)) = dom (outputs bl)"
  by (auto simp: Close_outputs dom_def)

lemma startLogger_turn_single:
  "buf (msg bl) = [] \<Longrightarrow>
   startLogger_turn (bl\<lparr>msg := (msg bl)\<lparr>buf := [lm]\<rparr>\<rparr>) =
     Some (bl\<lparr>outputs := range_outputs
                 (\<lambda>l. l\<lparr>calls := calls l @ [CallWriteMsg (msg_text lm) (msg_level lm)]\<rparr>)
                 (outputs bl)\<rparr>)"
  by (cases bl, cases "msg bl") (simp add: startLogger_turn_def chan_recv_def WriteMsg_calls)

text \<open>
  Claim C9. \<open>Close\<close> leaves the threshold, the annotation flag, the caller depth and the
  capacity of the queue as they were, and the adapter map keeps exactly its names. (The
  field \<open>msg\<close> still holds the same channel, which \<open>Close\<close> neither closes nor
  replaces; what was in it has been taken out and delivered.) An
  emit call after \<open>Close\<close> is filtered as before and sends the very message it would
  have sent before; with a queue of capacity above zero that message is enqueued. The
  dispatch loop has no exit: its next turn takes that message from the queue and writes
  it to every adapter of the map, destroyed or not.
\<close>

theorem Close_changes_only_queue_and_adapters:
  "level (Close bl) = level bl \<and>
   enableFuncCallDepth (Close bl) = enableFuncCallDepth bl \<and>
   loggerFuncCallDepth (Close bl) = loggerFuncCallDepth bl \<and>
   cap (msg (Close bl)) = cap (msg bl) \<and>
   dom (outputs (Close bl)) = dom (outputs bl) \<and>
   (level bl < S \<longrightarrow>
      log clr bl tp S v = Returned bl \<and> log clr (Close bl) tp S v = Returned (Close bl)) \<and>
   (S \<le> level bl \<longrightarrow>
      (\<exists>lm. msg_level lm = S \<and>
         log clr bl tp S v =
           (if length (buf (msg bl)) < cap (msg bl)
            then Returned (bl\<lparr>msg := (msg bl)\<lparr>buf := buf (msg bl) @ [lm]\<rparr>\<rparr>)
            else Blocked bl lm) \<and>
         log clr (Close bl) tp S v =
           (if 0 < cap (msg bl)
            then Returned ((Close bl)\<lparr>msg := (msg (Close bl))\<lparr>buf := [lm]\<rparr>\<rparr>)
            else Blocked (Close bl) lm) \<and>
         startLogger_turn ((Close bl)\<lparr>msg := (msg (Close bl))\<lparr>buf := [lm]\<rparr>\<rparr>) =
           Some ((Close bl)\<lparr>outputs := range_outputs
                    (\<lambda>l. l\<lparr>calls := calls l @ [CallWriteMsg (msg_text lm) (msg_level lm)]\<rparr>)
                    (outputs (Close bl))\<rparr>)))"
proof -
  obtain m where m: "\<And>clr bl. log clr bl tp S v = writerMsg clr bl S m"
    using log_body_independent [of tp S v] by blast
  have f: "level (Close bl) = level bl \<and>
   enableFuncCallDepth (Close bl) = enableFuncCallDepth bl \<and>
   loggerFuncCallDepth (Close bl) = loggerFuncCallDepth bl \<and>
   cap (msg (Close bl)) = cap (msg bl) \<and> buf (msg (Close bl)) = []"
    by (rule Close_fields)
  have skip: "level bl < S \<Longrightarrow>
      log clr bl tp S v = Returned bl \<and> log clr (Close bl) tp S v = Returned (Close bl)"
    by (simp add: m writerMsg_filtered f)
  have send: "\<exists>lm. msg_level lm = S \<and>
         log clr bl tp S v =
           (if length (buf (msg bl)) < cap (msg bl)
            then Returned (bl\<lparr>msg := (msg bl)\<lparr>buf := buf (msg bl) @ [lm]\<rparr>\<rparr>)
            else Blocked bl lm) \<and>
         log clr (Close bl) tp S v =
           (if 0 < cap (msg bl)
            then Returned ((Close bl)\<lparr>msg := (msg (Close bl))\<lparr>buf := [lm]\<rparr>\<rparr>)
            else Blocked (Close bl) lm) \<and>
         startLogger_turn ((Close bl)\<lparr>msg := (msg (Close bl))\<lparr>buf := [lm]\<rparr>\<rparr>) =
           Some ((Close bl)\<lparr>outputs := range_outputs
                    (\<lambda>l. l\<lparr>calls := calls l @ [CallWriteMsg (msg_text lm) (msg_level lm)]\<rparr>)
                    (outputs (Close bl))\<rparr>)" if le: "S \<le> level bl"
  proof -
    have le': "S \<le> level (Close bl)" using le f by simp
    show ?thesis
      apply (rule exI [of _ "\<lparr>msg_level = S, msg_text = annotated clr bl m\<rparr>"])
      apply (simp only: m writerMsg_sends [OF le] writerMsg_sends [OF le'] annotated_Close
               startLogger_turn_single [of "Close bl"] f)
      apply simp
      done
  qed
  show ?thesis using f skip send dom_Close [of bl] by blast
qed

theorem Close_changes_only_queue_and_adapters_witness:
  "\<exists>lm. msg_level lm = 1 \<and>
      log (\<lambda>d. None)
        (Close \<lparr>level = 2, enableFuncCallDepth = False, loggerFuncCallDepth = 2,
            msg = \<lparr>cap = 1, buf = [\<lparr>msg_level = 1, msg_text = ''low disk''\<rparr>]\<rparr>,
            outputs = [''console'' \<mapsto> quiet]\<rparr>) ''Warn'' 1 [V_string ''again''] =
      Returned ((Close \<lparr>level = 2, enableFuncCallDepth = False, loggerFuncCallDepth = 2,
            msg = \<lparr>cap = 1, buf = [\<lparr>msg_level = 1, msg_text = ''low disk''\<rparr>]\<rparr>,
            outputs = [''console'' \<mapsto> quiet]\<rparr>)
          \<lparr>msg := (msg (Close \<lparr>level = 2, enableFuncCallDepth = False, loggerFuncCallDepth = 2,
            msg = \<lparr>cap = 1, buf = [\<lparr>msg_level = 1, msg_text = ''low disk''\<rparr>]\<rparr>,
            outputs = [''console'' \<mapsto> quiet]\<rparr>))\<lparr>buf := [lm]\<rparr>\<rparr>)"
proof -
  let ?bl = "\<lparr>level = 2, enableFuncCallDepth = False, loggerFuncCallDepth = 2,
            msg = \<lparr>cap = 1, buf = [\<lparr>msg_level = 1, msg_text = ''low disk''\<rparr>]\<rparr>,
            outputs = [''console'' \<mapsto> quiet]\<rparr>"
  have h: "(1::int) \<le> level ?bl" by simp
  have c: "0 < cap (msg ?bl)" by simp
  obtain lm where l: "msg_level lm = 1"
    and e: "log (\<lambda>d. None) (Close ?bl) ''Warn'' 1 [V_string ''again''] =
           (if 0 < cap (msg ?bl)
            then Returned ((Close ?bl)\<lparr>msg := (msg (Close ?bl))\<lparr>buf := [lm]\<rparr>\<rparr>)
            else Blocked (Close ?bl) lm)"
    using Close_changes_only_queue_and_adapters
            [where bl = ?bl and S = 1 and clr = "\<lambda>d. None" and tp = "''Warn''"
               and v = "[V_string ''again'']",
             THEN conjunct2, THEN conjunct2, THEN conjunct2, THEN conjunct2, THEN conjunct2,
             THEN conjunct2, rule_format, OF h]
    by blast
  show ?thesis
    by (rule exI [of _ lm]) (simp only: l e c if_True simp_thms)
qed

subsection \<open>Adapter management\<close>

text \<open>
  Claim C5. For a name the registry knows, with any config: \<open>SetLogger\<close> builds an
  adapter, calls \<open>Init\<close> on it with the config and stores it under the name whatever
  \<open>Init\<close> returned; nothing else of the Logger changes. It returns the error of
  \<open>Init\<close> when there is one and nil when there is none.
\<close>

theorem SetLogger_keeps_adapter_and_returns_Init_error:
  assumes "adapters name = Some new"
  shows "fst (SetLogger adapters bl name config) =
           bl\<lparr>outputs := (outputs bl)(name \<mapsto> snd (Init (new ()) config))\<rparr> \<and>
         outputs (fst (SetLogger adapters bl name config)) name =
           Some ((new ())\<lparr>calls := calls (new ()) @ [CallInit config]\<rparr>) \<and>
         snd (SetLogger adapters bl name config) = fst (Init (new ()) config) \<and>
         (\<forall>e. fst (Init (new ()) config) = Some e \<longrightarrow>
              snd (SetLogger adapters bl name config) = Some e) \<and>
         (fst (Init (new ()) config) = None \<longrightarrow>
              snd (SetLogger adapters bl name config) = None)"
  using assms
  by (simp add: SetLogger_def Let_def Init_def split: option.split)


theorem SetLogger_keeps_adapter_and_returns_Init_error_witness:
  "NewLogger 1024 [''console'' \<mapsto> new_quiet,
                   ''file'' \<mapsto> (\<lambda>u. \<lparr>calls = [], returns = (\<lambda>h c. Some (Err ''bad config''))\<rparr>)] 16 =
     Returned
       (\<lparr>level = 3, enableFuncCallDepth = True, loggerFuncCallDepth = 2,
         msg = \<lparr>cap = 16, buf = []\<rparr>,
         outputs = [''console'' \<mapsto> \<lparr>calls = [CallInit []], returns = (\<lambda>h c. None)\<rparr>]\<rparr>,
        [Go_startLogger]) \<and>
   outputs (fst (SetLogger [''console'' \<mapsto> new_quiet,
                   ''file'' \<mapsto> (\<lambda>u. \<lparr>calls = [], returns = (\<lambda>h c. Some (Err ''bad config''))\<rparr>)]
       \<lparr>level = 3, enableFuncCallDepth = True, loggerFuncCallDepth = 2,
        msg = \<lparr>cap = 16, buf = []\<rparr>,
        outputs = [''console'' \<mapsto> \<lparr>calls = [CallInit []], returns = (\<lambda>h c. None)\<rparr>]\<rparr>
       ''file'' ''{'')) ''file'' =
     Some \<lparr>calls = [CallInit ''{''], returns = (\<lambda>h c. Some (Err ''bad config''))\<rparr> \<and>
   snd (SetLogger [''console'' \<mapsto> new_quiet,
                   ''file'' \<mapsto> (\<lambda>u. \<lparr>calls = [], returns = (\<lambda>h c. Some (Err ''bad config''))\<rparr>)]
       \<lparr>level = 3, enableFuncCallDepth = True, loggerFuncCallDepth = 2,
        msg = \<lparr>cap = 16, buf = []\<rparr>,
        outputs = [''console'' \<mapsto> \<lparr>calls = [CallInit []], returns = (\<lambda>h c. None)\<rparr>]\<rparr>
       ''file'' ''{'') =
     Some (Err ''bad config'')"
proof -
  let ?reg = "[''console'' \<mapsto> new_quiet,
               ''file'' \<mapsto> (\<lambda>u. \<lparr>calls = [], returns = (\<lambda>h c. Some (Err ''bad config''))\<rparr>)]"
  let ?bl = "\<lparr>level = 3, enableFuncCallDepth = True, loggerFuncCallDepth = 2,
        msg = \<lparr>cap = 16, buf = []\<rparr>,
        outputs = [''console'' \<mapsto> \<lparr>calls = [CallInit []], returns = (\<lambda>h c. None)\<rparr>]\<rparr>"
  have h: "?reg ''file'' = Some (\<lambda>u. \<lparr>calls = [], returns = (\<lambda>h c. Some (Err ''bad config''))\<rparr>)"
    by simp
  have n: "NewLogger 1024 ?reg 16 = Returned (?bl, [Go_startLogger])"
    by (simp add: NewLogger_def make_chan_def SetLogger_def Init_def new_quiet_def quiet_def
          LevelDebug_def)
  show ?thesis
    using SetLogger_keeps_adapter_and_returns_Init_error
            [where adapters = ?reg and name = "''file''" and bl = ?bl and config = "''{''", OF h]
          n
    by (simp add: Init_def)
qed

subsection \<open>The registry\<close>

text \<open>
  Claim C6 as it is stated fails: \<open>Register\<close> has no test of the name. With an empty
  registry, the empty name and a constructor that is not nil, it does not panic and
  registers the constructor under the empty name.
\<close>

theorem Register_empty_name_counterexample:
  "\<not> is_Panic (Register Map.empty [] (Some new_quiet)) \<and>
   Register Map.empty [] (Some new_quiet) = Returned [[] \<mapsto> new_quiet]"
  by (simp add: Register_def)

text \<open>
  Claim C6, amended. \<open>Register\<close> panics exactly when the constructor is nil or the name
  is already registered; the empty name is a name like any other. Registering a name
  that is not yet there with a constructor that is not nil returns the registry with that
  constructor under the name and every other name as it was, and registering the same
  name again then panics, whatever the constructor.
\<close>

theorem Register_panics_iff_nil_or_duplicate:
  "(is_Panic (Register adapters name ctor) \<longleftrightarrow> ctor = None \<or> adapters name \<noteq> None) \<and>
   (\<forall>f. ctor = Some f \<and> adapters name = None \<longrightarrow>
      Register adapters name ctor = Returned (adapters(name \<mapsto> f)) \<and>
      (adapters(name \<mapsto> f)) name = Some f \<and>
      (\<forall>other. other \<noteq> name \<longrightarrow> (adapters(name \<mapsto> f)) other = adapters other) \<and>
      (\<forall>g. is_Panic (Register (adapters(name \<mapsto> f)) name g)))"
  by (auto simp: Register_def split: option.splits)

theorem Register_panics_iff_nil_or_duplicate_witness:
  "Register Map.empty ''console'' (Some new_quiet) = Returned [''console'' \<mapsto> new_quiet] \<and>
   [''console'' \<mapsto> new_quiet] ''console'' = Some new_quiet \<and>
   is_Panic (Register [''console'' \<mapsto> new_quiet] ''console'' (Some new_quiet)) \<and>
   is_Panic (Register Map.empty ''console'' None)"
proof -
  have h: "Some new_quiet = Some new_quiet \<and> Map.empty ''console'' = (None :: loggerType option)"
    by simp
  have n: "(None :: loggerType option) = None \<or> Map.empty ''console'' \<noteq> (None :: loggerType option)"
    by simp
  show ?thesis
    using Register_panics_iff_nil_or_duplicate
            [where adapters = Map.empty and name = "''console''" and ctor = "Some new_quiet",
             THEN conjunct2, rule_format, OF h]
          Register_panics_iff_nil_or_duplicate
            [where adapters = "Map.empty :: registry" and name = "''console''" and ctor = None,
             THEN conjunct1, THEN iffD2, OF n]
    by simp
qed

subsection \<open>Construction\<close>

text \<open>
  Claim C4 as it is stated fails for a capacity that \<open>make\<close> refuses, a negative one or
  one beyond what a channel can hold (here \<open>2 ^ 62\<close>, with a limit of \<open>2 ^ 45\<close>
  elements): \<open>make\<close> panics and no Logger is returned.
\<close>

theorem NewLogger_capacity_out_of_range_counterexample:
  "NewLogger (2 ^ 45) [''console'' \<mapsto> new_quiet] (- 1) = Panic ''makechan: size out of range'' \<and>
   NewLogger (2 ^ 45) [''console'' \<mapsto> new_quiet] (2 ^ 62) = Panic ''makechan: size out of range''"
  by (simp add: NewLogger_def make_chan_def)

text \<open>
  Claim C4, amended. For a capacity from zero up to the limit of \<open>make\<close>, and a
  registry that knows \<open>console\<close>, \<open>NewLogger\<close> returns a Logger whose threshold is
  \<open>LevelDebug\<close>, whose caller depth is 2, whose annotation flag is set, whose queue is
  empty with the capacity given, and whose only adapter is a console adapter on which
  \<open>Init\<close> was called with the empty config; and it has started \<open>startLogger\<close>. For a
  capacity below zero or above the limit it panics, whatever the registry.
\<close>

theorem NewLogger_defaults:
  "(channellen < 0 \<or> max_chan < channellen \<longrightarrow>
      NewLogger max_chan adapters channellen = Panic ''makechan: size out of range'') \<and>
   (0 \<le> channellen \<and> channellen \<le> max_chan \<and> adapters ''console'' = Some new_console \<longrightarrow>
      (\<exists>bl. NewLogger max_chan adapters channellen = Returned (bl, [Go_startLogger]) \<and>
            level bl = LevelDebug \<and>
            loggerFuncCallDepth bl = 2 \<and>
            enableFuncCallDepth bl \<and>
            msg bl = \<lparr>cap = nat channellen, buf = []\<rparr> \<and>
            outputs bl = [''console'' \<mapsto> snd (Init (new_console ()) [])]))"
  by (auto simp: NewLogger_def make_chan_def Let_def SetLogger_def
        split: prod.split option.split)

theorem NewLogger_defaults_witness:
  "(\<exists>bl. NewLogger 1024 [''console'' \<mapsto> new_quiet] 16 = Returned (bl, [Go_startLogger]) \<and>
        level bl = 3 \<and> loggerFuncCallDepth bl = 2 \<and> enableFuncCallDepth bl \<and>
        msg bl = \<lparr>cap = 16, buf = []\<rparr> \<and>
        outputs bl = [''console'' \<mapsto> \<lparr>calls = [CallInit []], returns = (\<lambda>h c. None)\<rparr>]) \<and>
   NewLogger 1024 [''console'' \<mapsto> new_quiet] (- 3) = Panic ''makechan: size out of range'' \<and>
   NewLogger 1024 [''console'' \<mapsto> new_quiet] 1025 = Panic ''makechan: size out of range''"
proof -
  have a: "(0::int) \<le> 16 \<and> (16::int) \<le> 1024 \<and>
           [''console'' \<mapsto> new_quiet] ''console'' = Some new_quiet"
    by simp
  have n: "(- 3 :: int) < 0 \<or> (1024 :: int) < - 3" by simp
  have u: "(1025 :: int) < 0 \<or> (1024 :: int) < 1025" by simp
  show ?thesis
    using NewLogger_defaults
            [where adapters = "[''console'' \<mapsto> new_quiet]" and max_chan = 1024
               and channellen = 16 and new_console = new_quiet,
             THEN conjunct2, rule_format, OF a]
          NewLogger_defaults
            [where adapters = "[''console'' \<mapsto> new_quiet]" and max_chan = 1024
               and channellen = "- 3", THEN conjunct1, rule_format, OF n]
          NewLogger_defaults
            [where adapters = "[''console'' \<mapsto> new_quiet]" and max_chan = 1024
               and channellen = 1025, THEN conjunct1, rule_format, OF u]
    by (simp add: LevelDebug_def Init_def new_quiet_def quiet_def)
qed

subsection \<open>Rendering the message body\<close>

lemma Sprintf_literal:
  "CHR ''%'' \<notin> set p \<Longrightarrow> Sprintf (p @ f) args = p @ Sprintf f args"
  by (induction p) auto

lemma Sprintf_v_space:
  "Sprintf (''%v '' @ f) (a # as) = fmt_v a @ '' '' @ Sprintf f as"
  by (simp add: fmt_verb_def)

lemma generateFmtStr_Suc: "generateFmtStr (Suc n) = ''%v '' @ generateFmtStr n"
  by (simp add: generateFmtStr_def)

lemma Sprintf_generateFmtStr:
  "Sprintf (generateFmtStr (length v)) v = concat (map (\<lambda>a. fmt_v a @ '' '') v)"
proof (induction v)
  case Nil
  show ?case by (simp add: generateFmtStr_def)
next
  case (Cons a v)
  have "Sprintf (generateFmtStr (length (a # v))) (a # v) =
        Sprintf (''%v '' @ generateFmtStr (length v)) (a # v)"
    by (simp only: list.size generateFmtStr_Suc add_Suc_right Nat.add_0_right One_nat_def)
  also have "\<dots> = fmt_v a @ '' '' @ Sprintf (generateFmtStr (length v)) v"
    by (rule Sprintf_v_space)
  finally show ?case using Cons.IH by simp
qed

lemma Sprintf_tagged:
  assumes "CHR ''%'' \<notin> set tp"
  shows "Sprintf (''['' @ tp @ ''] '' @ generateFmtStr (length v)) v =
         ''['' @ tp @ ''] '' @ concat (map (\<lambda>a. fmt_v a @ '' '') v)"
proof -
  have "CHR ''%'' \<notin> set (''['' @ tp @ ''] '')" using assms by simp
  from Sprintf_literal [OF this, of "generateFmtStr (length v)" v]
  show ?thesis by (simp add: Sprintf_generateFmtStr)
qed

text \<open>
  Claim C3 as it is stated fails. The four methods hand \<open>log\<close> their arguments as one
  slice, so \<open>log\<close> formats a single operand, and each \<open>%v\<close> of the format is followed
  by a space: \<open>Error("a", "b")\<close> renders \<open>[Error] [a b] \<close>, with brackets around the
  arguments and a space at the end, where the claim has \<open>[Error] a b\<close>.
\<close>

theorem Error_brackets_counterexample:
  "Error (\<lambda>d. None)
     \<lparr>level = 3, enableFuncCallDepth = False, loggerFuncCallDepth = 2,
      msg = \<lparr>cap = 1, buf = []\<rparr>, outputs = Map.empty\<rparr>
     [V_string ''a'', V_string ''b''] =
   Returned
     \<lparr>level = 3, enableFuncCallDepth = False, loggerFuncCallDepth = 2,
      msg = \<lparr>cap = 1, buf = [\<lparr>msg_level = 0, msg_text = ''[Error] [a b] ''\<rparr>]\<rparr>,
      outputs = Map.empty\<rparr> \<and>
   spec_tag_and_joined ''Error'' [V_string ''a'', V_string ''b''] = ''[Error] a b'' \<and>
   ''[Error] [a b] '' \<noteq> spec_tag_and_joined ''Error'' [V_string ''a'', V_string ''b'']"
  by (simp add: Error_def log_def generateFmtStr_def fmt_verb_def writerMsg_def chan_send_def
        LevelError_def spec_tag_and_joined_def)


text \<open>
  Claim C3, amended. For a tag without a percent sign (as the four tags are) and any
  argument list \<open>v\<close> of \<open>log\<close>, the body that \<open>log\<close> renders is the tag between
  brackets, a space, and then every element of \<open>v\<close> in its default representation, each
  followed by one space, so that it ends with a space; after it comes the new line and
  the stack trace of a structured error, when \<open>rotate\<close> finds one with a stack trace
  that is not empty. The statement is about the list \<open>log\<close>
  receives; it says nothing of how the four methods pass their arguments on.
\<close>

theorem log_renders_each_argument_then_space:
  assumes "CHR ''%'' \<notin> set tp"
  shows "log clr bl tp lvl v =
           writerMsg clr bl lvl
             (''['' @ tp @ ''] '' @ concat (map (\<lambda>a. fmt_v a @ '' '') v) @
              (if handleError (rotate (V_slice v)) = [] then []
               else ''\<newline>'' @ handleError (rotate (V_slice v))))"
proof -
  have s: "Sprintf (CHR ''['' # tp @ CHR '']'' # CHR '' '' # generateFmtStr (length v)) v =
         CHR ''['' # tp @ CHR '']'' # CHR '' '' # concat (map (\<lambda>a. fmt_v a @ '' '') v)"
    using Sprintf_tagged [OF assms, of v] by simp
  show ?thesis
    by (simp add: log_def Let_def s del: rotate.simps Sprintf.simps)
qed

theorem log_renders_each_argument_then_space_witness:
  "log (\<lambda>d. None)
     \<lparr>level = 3, enableFuncCallDepth = False, loggerFuncCallDepth = 2,
      msg = \<lparr>cap = 1, buf = []\<rparr>, outputs = Map.empty\<rparr>
     ''Info'' 2 [V_string ''up'', V_int 3, V_bool True] =
   Returned
     \<lparr>level = 3, enableFuncCallDepth = False, loggerFuncCallDepth = 2,
      msg = \<lparr>cap = 1, buf = [\<lparr>msg_level = 2, msg_text = ''[Info] up 3 true ''\<rparr>]\<rparr>,
      outputs = Map.empty\<rparr>"
proof -
  have h: "CHR ''%'' \<notin> set ''Info''" by simp
  have i: "itoa 3 = ''3''" by code_simp
  show ?thesis
    using log_renders_each_argument_then_space
            [OF h, where clr = "\<lambda>d. None" and lvl = 2
               and v = "[V_string ''up'', V_int 3, V_bool True]"
               and bl = "\<lparr>level = 3, enableFuncCallDepth = False, loggerFuncCallDepth = 2,
                          msg = \<lparr>cap = 1, buf = []\<rparr>, outputs = Map.empty\<rparr>"]
    by (simp add: writerMsg_def chan_send_def i)
qed

subsection \<open>The structured error\<close>

lemma spec_first_ErrCode_is_ErrCode:
  "spec_first_ErrCode xs = Some found \<Longrightarrow> is_ErrCode found"
  by (induction xs arbitrary: found rule: spec_first_ErrCode.induct)
     (auto split: option.splits)

lemma rotate_finds_first:
  "(is_ErrCode (rotate v) \<longrightarrow> spec_first_ErrCode [v] = Some (rotate v)) \<and>
   (\<not> is_ErrCode (rotate v) \<longrightarrow> spec_first_ErrCode [v] = None)"
  "\<not> is_ErrCode item \<Longrightarrow>
   (is_ErrCode (rotate_range xs item) \<longrightarrow> spec_first_ErrCode xs = Some (rotate_range xs item)) \<and>
   (\<not> is_ErrCode (rotate_range xs item) \<longrightarrow> spec_first_ErrCode xs = None)"
proof (induction v and xs item rule: rotate_rotate_range.induct)
  case (1 items)
  then show ?case by (simp split: option.splits)
next
  case (9 x xs item)
  show ?case
  proof (cases "is_ErrCode (rotate x)")
    case True
    with 9 show ?thesis by (cases x) (auto simp: Let_def split: option.splits)
  next
    case False
    then have nx: "\<not> is_ErrCode x" by (cases x) auto
    from False 9 show ?thesis
      by (cases x) (auto simp: Let_def nx split: option.splits)
  qed
qed simp_all

lemma handleError_rotate:
  "handleError (rotate (V_slice v)) =
     (case spec_first_ErrCode v of None \<Rightarrow> [] | Some found \<Rightarrow> StackTrace found)"
proof (cases "is_ErrCode (rotate (V_slice v))")
  case True
  then have "spec_first_ErrCode [V_slice v] = Some (rotate (V_slice v))"
    using rotate_finds_first(1) [of "V_slice v"] by blast
  then have f: "spec_first_ErrCode v = Some (rotate (V_slice v))"
    by (simp split: option.splits)
  from True show ?thesis unfolding f by (cases "rotate (V_slice v)") simp_all
next
  case False
  then have "spec_first_ErrCode [V_slice v] = None"
    using rotate_finds_first(1) [of "V_slice v"] by blast
  then have f: "spec_first_ErrCode v = None"
    by (simp split: option.splits)
  from False show ?thesis unfolding f by (cases "rotate (V_slice v)") simp_all
qed


text \<open>
  Claim C8 as it is stated fails when the structured error that is found has an empty
  stack trace: \<open>log\<close> appends only when \<open>stack != ""\<close>, so the body stays as it was,
  without the new line the claim appends.
\<close>

theorem empty_StackTrace_counterexample:
  "Error (\<lambda>d. None)
     \<lparr>level = 3, enableFuncCallDepth = False, loggerFuncCallDepth = 2,
      msg = \<lparr>cap = 1, buf = []\<rparr>, outputs = Map.empty\<rparr>
     [V_ErrCode ''*errors.errorCode'' ''boom'' []] =
   Returned
     \<lparr>level = 3, enableFuncCallDepth = False, loggerFuncCallDepth = 2,
      msg = \<lparr>cap = 1, buf = [\<lparr>msg_level = 0, msg_text = ''[Error] [boom] ''\<rparr>]\<rparr>,
      outputs = Map.empty\<rparr> \<and>
   spec_first_ErrCode [V_ErrCode ''*errors.errorCode'' ''boom'' []] =
     Some (V_ErrCode ''*errors.errorCode'' ''boom'' []) \<and>
   ''[Error] [boom] '' \<noteq>
     ''[Error] [boom] '' @ ''\<newline>'' @ StackTrace (V_ErrCode ''*errors.errorCode'' ''boom'' [])"
  by (simp add: Error_def log_def generateFmtStr_def fmt_verb_def writerMsg_def chan_send_def
        LevelError_def)

text \<open>
  Claim C8, amended. For each of the four emit methods and any argument list, the text
  handed to \<open>writerMsg\<close> is the rendered body followed by: nothing, when the depth-first
  search of the list (descending, in order, into every argument that is itself a
  \<open>[]interface{}\<close>) finds no value with the capability; nothing, when the first value
  found has an empty stack trace; a new line and the stack trace of the first value found
  otherwise. No other value's stack trace is used.
\<close>

theorem emit_appends_first_stack_trace:
  assumes "(emit, tp, S) \<in> {(Error, ''Error'', LevelError), (Warn, ''Warn'', LevelWarn),
                             (Info, ''Info'', LevelInfo), (Debug, ''Debug'', LevelDebug)}"
  shows "emit clr bl args =
           writerMsg clr bl S
             (Sprintf (''['' @ tp @ ''] '' @ generateFmtStr 1) [V_slice args] @
              (case spec_first_ErrCode args of
                 None \<Rightarrow> []
               | Some found \<Rightarrow>
                   if StackTrace found = [] then [] else ''\<newline>'' @ StackTrace found))"
proof -
  have e: "emit clr bl args = log clr bl tp S [V_slice args]"
    using assms by (auto simp: Error_def Warn_def Info_def Debug_def)
  have f: "spec_first_ErrCode [V_slice args] = spec_first_ErrCode args"
    by (simp split: option.splits)
  have h: "handleError (rotate (V_slice [V_slice args])) =
        (case spec_first_ErrCode args of None \<Rightarrow> [] | Some found \<Rightarrow> StackTrace found)"
    using handleError_rotate [of "[V_slice args]"] by (simp only: f)
  show ?thesis
    unfolding e log_def Let_def h
    by (simp split: option.split del: Sprintf.simps)
qed

theorem emit_appends_first_stack_trace_witness:
  "Warn (\<lambda>d. None)
     \<lparr>level = 3, enableFuncCallDepth = False, loggerFuncCallDepth = 2,
      msg = \<lparr>cap = 1, buf = []\<rparr>, outputs = Map.empty\<rparr>
     [V_string ''save'', V_slice [V_ErrCode ''*errors.errorCode'' ''E1'' ''at main.go:7''],
      V_ErrCode ''*errors.errorCode'' ''E2'' ''at main.go:9''] =
   Returned
     \<lparr>level = 3, enableFuncCallDepth = False, loggerFuncCallDepth = 2,
      msg = \<lparr>cap = 1,
             buf = [\<lparr>msg_level = 1,
                     msg_text = ''[Warn] [save [E1] E2] \<newline>at main.go:7''\<rparr>]\<rparr>,
      outputs = Map.empty\<rparr>"
proof -
  have h: "(Warn, ''Warn'', LevelWarn) \<in> {(Error, ''Error'', LevelError), (Warn, ''Warn'', LevelWarn),
                             (Info, ''Info'', LevelInfo), (Debug, ''Debug'', LevelDebug)}"
    by simp
  show ?thesis
    using emit_appends_first_stack_trace
            [OF h, where clr = "\<lambda>d. None"
               and args = "[V_string ''save'',
                            V_slice [V_ErrCode ''*errors.errorCode'' ''E1'' ''at main.go:7''],
                            V_ErrCode ''*errors.errorCode'' ''E2'' ''at main.go:9'']"
               and bl = "\<lparr>level = 3, enableFuncCallDepth = False, loggerFuncCallDepth = 2,
                          msg = \<lparr>cap = 1, buf = []\<rparr>, outputs = Map.empty\<rparr>"]
    by (simp add: writerMsg_def chan_send_def generateFmtStr_def fmt_verb_def LevelWarn_def)
qed

subsection \<open>Pretty-printing\<close>

lemma writerMsg_no_Panic: "\<not> is_Panic (writerMsg clr bl S m)"
  by (simp add: writerMsg_def Let_def split: option.split prod.split)

lemma Sprintf_Pretty:
  "Sprintf ''[Pretty]\<newline>%s\<newline>%s'' [V_string h, V_string b] =
     ''[Pretty]\<newline>'' @ h @ ''\<newline>'' @ b"
  by (simp add: fmt_verb_def)

text \<open>
  Claim C10. \<open>pretty\<close> panics on the empty message with the nil value. For every other
  input it does not panic: it makes one emit call, \<open>writerMsg\<close> at \<open>LevelDebug\<close>, with
  the text \<open>[Pretty]\<close>, the message (the type name of the value when the message is
  empty) and the serialized value on three lines. That call returns at once when the
  threshold is below \<open>LevelDebug\<close>; otherwise it sends one message of level
  \<open>LevelDebug\<close>, enqueued when the queue has room.
\<close>

theorem pretty_panics_only_on_empty_message_and_nil:
  "is_Panic (pretty json clr bl [] V_nil) \<and>
   (message \<noteq> [] \<or> v \<noteq> V_nil \<longrightarrow>
      \<not> is_Panic (pretty json clr bl message v) \<and>
      (\<exists>header.
         (if message = [] then reflect_TypeOf v = Some header else header = message) \<and>
         pretty json clr bl message v =
           writerMsg clr bl LevelDebug
             (''[Pretty]\<newline>'' @ header @ ''\<newline>'' @ json v)) \<and>
      (level bl < LevelDebug \<longrightarrow> pretty json clr bl message v = Returned bl) \<and>
      (LevelDebug \<le> level bl \<longrightarrow>
         (\<exists>lm. msg_level lm = LevelDebug \<and>
            pretty json clr bl message v =
              (if length (buf (msg bl)) < cap (msg bl)
               then Returned (bl\<lparr>msg := (msg bl)\<lparr>buf := buf (msg bl) @ [lm]\<rparr>\<rparr>)
               else Blocked bl lm))))"
proof -
  have p: "is_Panic (pretty json clr bl [] V_nil)"
    by (simp add: pretty_def)
  have q: "\<exists>header.
         (if message = [] then reflect_TypeOf v = Some header else header = message) \<and>
         pretty json clr bl message v =
           writerMsg clr bl LevelDebug
             (''[Pretty]\<newline>'' @ header @ ''\<newline>'' @ json v)"
    if "message \<noteq> [] \<or> v \<noteq> V_nil"
  proof (cases "message = []")
    case True
    with that obtain t where t: "reflect_TypeOf v = Some t" by (cases v) auto
    show ?thesis
      by (rule exI [of _ t]) (simp only: True t pretty_def Let_def Sprintf_Pretty, simp)
  next
    case False
    show ?thesis
      by (rule exI [of _ message]) (simp only: False pretty_def Let_def Sprintf_Pretty, simp)
  qed
  show ?thesis
  proof (intro conjI impI)
    show "is_Panic (pretty json clr bl [] V_nil)" by (rule p)
  next
    assume a: "message \<noteq> [] \<or> v \<noteq> V_nil"
    from q [OF a] show "\<not> is_Panic (pretty json clr bl message v)"
      using writerMsg_no_Panic by auto
  next
    assume a: "message \<noteq> [] \<or> v \<noteq> V_nil"
    from q [OF a] show "\<exists>header.
         (if message = [] then reflect_TypeOf v = Some header else header = message) \<and>
         pretty json clr bl message v =
           writerMsg clr bl LevelDebug
             (''[Pretty]\<newline>'' @ header @ ''\<newline>'' @ json v)" .
  next
    assume a: "message \<noteq> [] \<or> v \<noteq> V_nil" and l: "level bl < LevelDebug"
    from q [OF a] show "pretty json clr bl message v = Returned bl"
      using writerMsg_filtered [OF l] by auto
  next
    assume a: "message \<noteq> [] \<or> v \<noteq> V_nil" and l: "LevelDebug \<le> level bl"
    from q [OF a] obtain header where
      "pretty json clr bl message v =
           writerMsg clr bl LevelDebug (''[Pretty]\<newline>'' @ header @ ''\<newline>'' @ json v)"
      by blast
    then show "\<exists>lm. msg_level lm = LevelDebug \<and>
            pretty json clr bl message v =
              (if length (buf (msg bl)) < cap (msg bl)
               then Returned (bl\<lparr>msg := (msg bl)\<lparr>buf := buf (msg bl) @ [lm]\<rparr>\<rparr>)
               else Blocked bl lm)"
      using writerMsg_passed [OF l] by simp
  qed
qed


theorem pretty_panics_only_on_empty_message_and_nil_witness:
  "is_Panic (pretty (\<lambda>v. ''{}'') (\<lambda>d. None)
     \<lparr>level = 3, enableFuncCallDepth = False, loggerFuncCallDepth = 2,
      msg = \<lparr>cap = 1, buf = []\<rparr>, outputs = Map.empty\<rparr> [] V_nil) \<and>
   \<not> is_Panic (pretty (\<lambda>v. ''{}'') (\<lambda>d. None)
     \<lparr>level = 3, enableFuncCallDepth = False, loggerFuncCallDepth = 2,
      msg = \<lparr>cap = 1, buf = []\<rparr>, outputs = Map.empty\<rparr> [] (V_other ''main.T'' ''{}'')) \<and>
   pretty (\<lambda>v. ''{}'') (\<lambda>d. None)
     \<lparr>level = 3, enableFuncCallDepth = False, loggerFuncCallDepth = 2,
      msg = \<lparr>cap = 1, buf = []\<rparr>, outputs = Map.empty\<rparr> [] (V_other ''main.T'' ''{}'') =
   Returned
     \<lparr>level = 3, enableFuncCallDepth = False, loggerFuncCallDepth = 2,
      msg = \<lparr>cap = 1, buf = [\<lparr>msg_level = 3, msg_text = ''[Pretty]\<newline>main.T\<newline>{}''\<rparr>]\<rparr>,
      outputs = Map.empty\<rparr>"
proof -
  have h: "([]::string) \<noteq> [] \<or> V_other ''main.T'' ''{}'' \<noteq> V_nil" by simp
  have e: "pretty (\<lambda>v. ''{}'') (\<lambda>d. None)
     \<lparr>level = 3, enableFuncCallDepth = False, loggerFuncCallDepth = 2,
      msg = \<lparr>cap = 1, buf = []\<rparr>, outputs = Map.empty\<rparr> [] (V_other ''main.T'' ''{}'') =
   Returned
     \<lparr>level = 3, enableFuncCallDepth = False, loggerFuncCallDepth = 2,
      msg = \<lparr>cap = 1, buf = [\<lparr>msg_level = 3, msg_text = ''[Pretty]\<newline>main.T\<newline>{}''\<rparr>]\<rparr>,
      outputs = Map.empty\<rparr>"
    by (simp add: pretty_def writerMsg_def chan_send_def LevelDebug_def fmt_verb_def)
  show ?thesis
    using pretty_panics_only_on_empty_message_and_nil
            [where json = "\<lambda>v. ''{}''" and clr = "\<lambda>d. None" and message = "[]"
               and v = "V_other ''main.T'' ''{}''"
               and bl = "\<lparr>level = 3, enableFuncCallDepth = False, loggerFuncCallDepth = 2,
                          msg = \<lparr>cap = 1, buf = []\<rparr>, outputs = Map.empty\<rparr>",
             THEN conjunct1]
          pretty_panics_only_on_empty_message_and_nil
            [where json = "\<lambda>v. ''{}''" and clr = "\<lambda>d. None" and message = "[]"
               and v = "V_other ''main.T'' ''{}''"
               and bl = "\<lparr>level = 3, enableFuncCallDepth = False, loggerFuncCallDepth = 2,
                          msg = \<lparr>cap = 1, buf = []\<rparr>, outputs = Map.empty\<rparr>",
             THEN conjunct2, rule_format, OF h, THEN conjunct1]
          e
    by simp
qed

subsection \<open>The capacity of the queue and the full queue\<close>










end
